theory Spec2Isabelle
  imports Complex_Main "HOL-Library.Log_Nat"
begin

section \<open>Python and numpy primitives used by the DQN notebook\<close>

text \<open>
  The exceptions the modelled code can raise. A call either returns a value (\<open>Inr\<close>)
  or raises (\<open>Inl\<close>).
\<close>

datatype error = ValueError | IndexError | OverflowError | ZeroDivisionError

text \<open>
  \<^verbatim>\<open>np.zeros((n, ...))\<close>: an array of \<open>n\<close> rows, each the zero row \<open>z\<close>. numpy refuses a
  negative dimension with a ValueError and accepts the dimension 0. (Memory limits of the
  allocation are outside the model.)
\<close>

definition np_zeros :: "int \<Rightarrow> 'a \<Rightarrow> error + 'a list" where
  "np_zeros n z = (if n < 0 then Inl ValueError else Inr (replicate (nat n) z))"

text \<open>
  An integer index into the first axis of an array: negative indices count from the end,
  anything outside \<open>[-len, len)\<close> raises IndexError.
\<close>

definition np_index :: "'a list \<Rightarrow> int \<Rightarrow> error + nat" where
  "np_index xs i =
     (let len = int (length xs); j = (if i < 0 then len + i else i)
      in if 0 \<le> j \<and> j < len then Inr (nat j) else Inl IndexError)"

text \<open>\<^verbatim>\<open>arr[i] = v\<close> on the first axis.\<close>

definition np_setitem :: "'a list \<Rightarrow> int \<Rightarrow> 'a \<Rightarrow> error + 'a list" where
  "np_setitem xs i v =
     (case np_index xs i of Inl e \<Rightarrow> Inl e | Inr j \<Rightarrow> Inr (xs[j := v]))"

text \<open>\<^verbatim>\<open>arr[batch_indices]\<close>: gathers the rows at an array of indices, each index checked.\<close>

fun np_take :: "'a list \<Rightarrow> int list \<Rightarrow> error + 'a list" where
  "np_take xs [] = Inr []"
| "np_take xs (i # is) =
     (case np_index xs i of
        Inl e \<Rightarrow> Inl e
      | Inr j \<Rightarrow> (case np_take xs is of Inl e \<Rightarrow> Inl e | Inr ys \<Rightarrow> Inr (xs ! j # ys)))"

text \<open>
  The action array has the dtype of a \<^verbatim>\<open>spaces.Discrete\<close> space, int64: storing a Python
  int that does not fit raises OverflowError, any other int is stored as it is.
\<close>

definition is_int64 :: "int \<Rightarrow> bool" where
  "is_int64 a \<longleftrightarrow> - (2 ^ 63) \<le> a \<and> a < 2 ^ 63"

definition to_int64 :: "int \<Rightarrow> error + int" where
  "to_int64 a = (if is_int64 a then Inr a else Inl OverflowError)"

text \<open>
  The state of a random generator is the sequence of raw draws it will still produce.
  \<^verbatim>\<open>np.random.randint(low, high, size)\<close> returns \<open>size\<close> integers of \<open>[low, high)\<close>, one per
  raw draw, and leaves the generator advanced by \<open>size\<close> draws. An empty request
  (\<open>size = 0\<close>) returns the empty array before the bounds are looked at; otherwise
  \<open>low \<ge> high\<close> raises ValueError, and so does a negative size.
\<close>

type_synonym rng = "nat \<Rightarrow> nat"

definition np_random_randint :: "rng \<Rightarrow> int \<Rightarrow> int \<Rightarrow> int \<Rightarrow> error + (int list \<times> rng)" where
  "np_random_randint g low high sz =
     (if sz = 0 then Inr ([], g)
      else if high \<le> low then Inl ValueError
      else if sz < 0 then Inl ValueError
      else Inr (map (\<lambda>k. low + int (g k) mod (high - low)) [0..<nat sz],
                \<lambda>k. g (k + nat sz)))"

section \<open>Floating-point numbers\<close>

text \<open>
  A Python \<^verbatim>\<open>float\<close> (and numpy's \<^verbatim>\<open>float64\<close>) is an IEEE 754 binary64 number: a finite value,
  which is a rational with a 53-bit significand, an infinity or a NaN. The sign of a zero is
  not kept: it can be observed neither by \<^verbatim>\<open>==\<close> nor by the operations below. Equality of
  finite values is the \<^verbatim>\<open>==\<close> of Python.
\<close>

datatype float64 = Finite rat | PosInf | NegInf | NaN

text \<open>
  Rounding to nearest, ties to even. \<open>floor_log2 q\<close> is the exponent \<open>e\<close> of the binade
  \<open>2\<^sup>e \<le> q < 2\<^sup>e\<^sup>+\<^sup>1\<close> of a positive rational; the spacing of binary64 numbers in that binade
  is \<open>2\<^sup>e\<^sup>-\<^sup>5\<^sup>2\<close>, and \<open>2\<^sup>-\<^sup>1\<^sup>0\<^sup>7\<^sup>4\<close> below the normal range. A result that rounds to \<open>2\<^sup>1\<^sup>0\<^sup>2\<^sup>4\<close> or
  more overflows to an infinity, which can only happen in the top binade.
\<close>

definition floor_log2 :: "rat \<Rightarrow> int" where
  "floor_log2 q = (case quotient_of q of (a, b) \<Rightarrow>
      let d = bitlen a - bitlen b in if 2 powi d \<le> q then d else d - 1)"

definition round_half_even :: "rat \<Rightarrow> int" where
  "round_half_even x =
     (let n = \<lfloor>x\<rfloor>; r = x - of_int n
      in if r < 1 / 2 then n else if 1 / 2 < r then n + 1 else if even n then n else n + 1)"

definition fl64 :: "rat \<Rightarrow> float64" where
  "fl64 q =
     (if q = 0 then Finite 0
      else let e = max (floor_log2 \<bar>q\<bar>) (- 1022);
               ulp = 2 powi (e - 52);
               r = of_int (round_half_even (q / ulp)) * ulp
           in if e < 1023 then Finite r
              else if 2 powi 1024 \<le> \<bar>r\<bar> then (if 0 < q then PosInf else NegInf)
              else Finite r)"

text \<open>
  A value of a float32 array is a binary32 number: a 24-bit significand, spacing \<open>2\<^sup>e\<^sup>-\<^sup>2\<^sup>3\<close> in
  the binade of exponent \<open>e\<close> and \<open>2\<^sup>-\<^sup>1\<^sup>4\<^sup>9\<close> below the normal range, overflow at \<open>2\<^sup>1\<^sup>2\<^sup>8\<close>. It is
  written with the same constructors. Storing a Python float into a float32 array narrows
  it: the nearest binary32 number, ties to even, an infinity on overflow; this does not
  raise.
\<close>

type_synonym float32 = float64

definition fl32 :: "rat \<Rightarrow> float32" where
  "fl32 q =
     (if q = 0 then Finite 0
      else let e = max (floor_log2 \<bar>q\<bar>) (- 126);
               ulp = 2 powi (e - 23);
               r = of_int (round_half_even (q / ulp)) * ulp
           in if e < 127 then Finite r
              else if 2 powi 128 \<le> \<bar>r\<bar> then (if 0 < q then PosInf else NegInf)
              else Finite r)"

fun to_float32 :: "float64 \<Rightarrow> float32" where
  "to_float32 (Finite q) = fl32 q"
| "to_float32 PosInf = PosInf"
| "to_float32 NegInf = NegInf"
| "to_float32 NaN = NaN"

text \<open>
  Negation, addition, subtraction and multiplication of binary64 numbers: the exact result,
  rounded, with the IEEE rules for infinities and NaN. These operations never raise.
\<close>

fun fneg :: "float64 \<Rightarrow> float64" where
  "fneg (Finite a) = Finite (- a)"
| "fneg PosInf = NegInf"
| "fneg NegInf = PosInf"
| "fneg NaN = NaN"

fun fadd :: "float64 \<Rightarrow> float64 \<Rightarrow> float64" where
  "fadd (Finite a) (Finite b) = fl64 (a + b)"
| "fadd NaN y = NaN"
| "fadd x NaN = NaN"
| "fadd PosInf NegInf = NaN"
| "fadd NegInf PosInf = NaN"
| "fadd (Finite a) y = y"
| "fadd x y = x"

definition fsub :: "float64 \<Rightarrow> float64 \<Rightarrow> float64" where
  "fsub x y = fadd x (fneg y)"

fun fmul :: "float64 \<Rightarrow> float64 \<Rightarrow> float64" where
  "fmul (Finite a) (Finite b) = fl64 (a * b)"
| "fmul NaN y = NaN"
| "fmul x NaN = NaN"
| "fmul (Finite a) PosInf = (if a = 0 then NaN else if 0 < a then PosInf else NegInf)"
| "fmul (Finite a) NegInf = (if a = 0 then NaN else if 0 < a then NegInf else PosInf)"
| "fmul PosInf (Finite b) = (if b = 0 then NaN else if 0 < b then PosInf else NegInf)"
| "fmul NegInf (Finite b) = (if b = 0 then NaN else if 0 < b then NegInf else PosInf)"
| "fmul PosInf PosInf = PosInf"
| "fmul PosInf NegInf = NegInf"
| "fmul NegInf PosInf = NegInf"
| "fmul NegInf NegInf = PosInf"

text \<open>
  \<^verbatim>\<open>x / y\<close> on Python floats: division by zero raises ZeroDivisionError.
\<close>

fun py_float_truediv :: "float64 \<Rightarrow> float64 \<Rightarrow> error + float64" where
  "py_float_truediv (Finite a) (Finite b) =
     (if b = 0 then Inl ZeroDivisionError else Inr (fl64 (a / b)))"
| "py_float_truediv PosInf (Finite b) =
     (if b = 0 then Inl ZeroDivisionError else Inr (if 0 < b then PosInf else NegInf))"
| "py_float_truediv NegInf (Finite b) =
     (if b = 0 then Inl ZeroDivisionError else Inr (if 0 < b then NegInf else PosInf))"
| "py_float_truediv NaN (Finite b) = (if b = 0 then Inl ZeroDivisionError else Inr NaN)"
| "py_float_truediv x NaN = Inr NaN"
| "py_float_truediv (Finite a) y = Inr (Finite 0)"
| "py_float_truediv x y = Inr NaN"

text \<open>\<^verbatim>\<open>np.minimum\<close>: the smaller of two numbers, NaN if one of them is NaN.\<close>

fun fle :: "float64 \<Rightarrow> float64 \<Rightarrow> bool" where
  "fle (Finite a) (Finite b) = (a \<le> b)"
| "fle NaN y = False"
| "fle x NaN = False"
| "fle NegInf y = True"
| "fle x PosInf = True"
| "fle x y = False"

definition np_minimum :: "float64 \<Rightarrow> float64 \<Rightarrow> float64" where
  "np_minimum x y = (if x = NaN \<or> y = NaN then NaN else if fle x y then x else y)"

text \<open>
  The conversion of a Python int to a float, by \<^verbatim>\<open>float(n)\<close> or implicitly as an operand of
  \<^verbatim>\<open>/\<close>: the nearest binary64 number, and OverflowError when there is none.
\<close>

definition py_float :: "int \<Rightarrow> error + float64" where
  "py_float n = (case fl64 (of_int n) of Finite r \<Rightarrow> Inr (Finite r) | _ \<Rightarrow> Inl OverflowError)"

section \<open>The replay buffer\<close>

text \<open>
  \<^verbatim>\<open>spaces.Discrete(n)\<close>, the action space: \<open>n\<close> actions \<open>0, ..., n - 1\<close>.
\<close>

datatype Discrete = Discrete int

text \<open>
  \<^verbatim>\<open>spaces.Box\<close>, the observation space. What the buffer takes from it is the shape and dtype
  of its arrays of observations: \<open>'o\<close> is the type of a row of such an array, and \<open>to_dtype\<close> is
  the conversion of an observation to the dtype of the space, which numpy applies when the
  observation is written into the array.
\<close>

record 'o Box =
  to_dtype :: "'o \<Rightarrow> 'o"

text \<open>
  \<^verbatim>\<open>ReplayBufferSamples\<close>: the five arrays a call of \<^verbatim>\<open>sample\<close> returns. The actions are
  rows (a two-dimensional array), the rewards (float32) and the terminated flags are flat.
\<close>

record 'o ReplayBufferSamples =
  observations :: "'o list"
  next_observations :: "'o list"
  actions :: "int list list"
  rewards :: "float32 list"
  terminateds :: "bool list"

text \<open>
  The fields of a \<^verbatim>\<open>ReplayBuffer\<close> object. The observation arrays have the shape and dtype
  of the observation space, the action array is int64 with \<^verbatim>\<open>action_dim\<close> entries in a row,
  the reward array is float32 and the array of terminated flags is boolean.
\<close>

record 'o ReplayBuffer =
  current_idx :: int
  buffer_size :: int
  is_full :: bool
  observation_space :: "'o Box"
  action_space :: Discrete
  observations :: "'o list"
  next_observations :: "'o list"
  actions :: "int list list"
  rewards :: "float32 list"
  terminateds :: "bool list"

definition action_dim :: nat where
  "action_dim = 1"

text \<open>\<^verbatim>\<open>ReplayBuffer.__init__\<close>: the arrays are allocated in the order of the source.\<close>

definition ReplayBuffer_init :: "int \<Rightarrow> 'o Box \<Rightarrow> Discrete \<Rightarrow> error + ('o::zero) ReplayBuffer" where
  "ReplayBuffer_init capacity ospace aspace =
     (case np_zeros capacity (0::'o) of Inl e \<Rightarrow> Inl e | Inr obs \<Rightarrow>
      case np_zeros capacity (0::'o) of Inl e \<Rightarrow> Inl e | Inr nobs \<Rightarrow>
      case np_zeros capacity (replicate action_dim (0::int)) of Inl e \<Rightarrow> Inl e | Inr acts \<Rightarrow>
      case np_zeros capacity (Finite 0) of Inl e \<Rightarrow> Inl e | Inr rews \<Rightarrow>
      case np_zeros capacity False of Inl e \<Rightarrow> Inl e | Inr terms \<Rightarrow>
        Inr \<lparr> current_idx = 0, buffer_size = capacity, is_full = False,
              observation_space = ospace, action_space = aspace,
              observations = obs, next_observations = nobs, actions = acts,
              rewards = rews, terminateds = terms \<rparr>)"

text \<open>
  \<^verbatim>\<open>ReplayBuffer.store_transition\<close>. The object is mutated in place, so a call leaves a
  buffer behind also when it raises: the result is what the call did (\<open>Inr ()\<close> for a normal
  return, \<open>Inl e\<close> for an exception) and the buffer after it. Each value is converted to
  the dtype of the array it is written into: the observations to the dtype of the
  observation space, the action to int64, the reward (a Python float) to float32. The scalar
  action is broadcast over the row of the action array.
\<close>

definition store_transition ::
  "'o ReplayBuffer \<Rightarrow> 'o \<Rightarrow> 'o \<Rightarrow> int \<Rightarrow> float64 \<Rightarrow> bool \<Rightarrow> (error + unit) \<times> 'o ReplayBuffer" where
  "store_transition b obs next_obs action reward terminated =
     (case np_setitem (observations b) (current_idx b) (to_dtype (observation_space b) obs) of
        Inl e \<Rightarrow> (Inl e, b)
      | Inr os \<Rightarrow>
     let b1 = b\<lparr>observations := os\<rparr> in
     (case np_setitem (next_observations b1) (current_idx b1)
             (to_dtype (observation_space b1) next_obs) of
        Inl e \<Rightarrow> (Inl e, b1)
      | Inr ns \<Rightarrow>
     let b2 = b1\<lparr>next_observations := ns\<rparr> in
     (case np_index (actions b2) (current_idx b2) of
        Inl e \<Rightarrow> (Inl e, b2)
      | Inr j \<Rightarrow>
     (case to_int64 action of
        Inl e \<Rightarrow> (Inl e, b2)
      | Inr a \<Rightarrow>
     let b3 = b2\<lparr>actions := (actions b2)[j := replicate (length (actions b2 ! j)) a]\<rparr> in
     (case np_setitem (rewards b3) (current_idx b3) (to_float32 reward) of
        Inl e \<Rightarrow> (Inl e, b3)
      | Inr rs \<Rightarrow>
     let b4 = b3\<lparr>rewards := rs\<rparr> in
     (case np_setitem (terminateds b4) (current_idx b4) terminated of
        Inl e \<Rightarrow> (Inl e, b4)
      | Inr ts \<Rightarrow>
     let b5 = b4\<lparr>terminateds := ts\<rparr>;
         b6 = b5\<lparr>current_idx := current_idx b5 + 1\<rparr>
     in if current_idx b6 = buffer_size b6
        then (Inr (), b6\<lparr>current_idx := 0, is_full := True\<rparr>)
        else (Inr (), b6)))))))"

text \<open>
  A caller storing a list of transitions one after the other, as the loops of the notebook
  do; it stops at the first call that raises.
\<close>

fun store_all ::
  "'o ReplayBuffer \<Rightarrow> ('o \<times> 'o \<times> int \<times> float64 \<times> bool) list \<Rightarrow> (error + unit) \<times> 'o ReplayBuffer" where
  "store_all b [] = (Inr (), b)"
| "store_all b ((obs, next_obs, action, reward, terminated) # ts) =
     (case store_transition b obs next_obs action reward terminated of
        (Inl e, b') \<Rightarrow> (Inl e, b')
      | (Inr u, b') \<Rightarrow> store_all b' ts)"

text \<open>
  \<^verbatim>\<open>ReplayBuffer.sample\<close>, in the two steps of the source: the local variables
  \<^verbatim>\<open>upper_bound\<close> and \<^verbatim>\<open>batch_indices\<close>, then the gathered arrays. The global numpy generator
  is passed in and returned advanced.
\<close>

definition upper_bound :: "'o ReplayBuffer \<Rightarrow> int" where
  "upper_bound b = (if is_full b then buffer_size b else current_idx b)"

definition batch_indices :: "'o ReplayBuffer \<Rightarrow> int \<Rightarrow> rng \<Rightarrow> error + (int list \<times> rng)" where
  "batch_indices b batch_size g = np_random_randint g 0 (upper_bound b) batch_size"

definition sample ::
  "'o ReplayBuffer \<Rightarrow> int \<Rightarrow> rng \<Rightarrow> error + ('o ReplayBufferSamples \<times> rng)" where
  "sample b batch_size g =
     (case batch_indices b batch_size g of Inl e \<Rightarrow> Inl e | Inr (idxs, g') \<Rightarrow>
      case np_take (observations b) idxs of Inl e \<Rightarrow> Inl e | Inr os \<Rightarrow>
      case np_take (next_observations b) idxs of Inl e \<Rightarrow> Inl e | Inr ns \<Rightarrow>
      case np_take (actions b) idxs of Inl e \<Rightarrow> Inl e | Inr acts \<Rightarrow>
      case np_take (rewards b) idxs of Inl e \<Rightarrow> Inl e | Inr rs \<Rightarrow>
      case np_take (terminateds b) idxs of Inl e \<Rightarrow> Inl e | Inr ts \<Rightarrow>
        Inr (\<lparr> ReplayBufferSamples.observations = os,
                ReplayBufferSamples.next_observations = ns,
                ReplayBufferSamples.actions = acts,
                ReplayBufferSamples.rewards = rs,
                ReplayBufferSamples.terminateds = ts \<rparr>, g'))"

text \<open>
  The invariant of a buffer of positive capacity: every array has \<^verbatim>\<open>buffer_size\<close> rows, the
  write index is inside, and every action row has \<^verbatim>\<open>action_dim\<close> entries.
\<close>

definition buffer_inv :: "'o ReplayBuffer \<Rightarrow> bool" where
  "buffer_inv b \<longleftrightarrow>
     0 \<le> current_idx b \<and> current_idx b < buffer_size b \<and>
     length (observations b) = nat (buffer_size b) \<and>
     length (next_observations b) = nat (buffer_size b) \<and>
     length (actions b) = nat (buffer_size b) \<and>
     length (rewards b) = nat (buffer_size b) \<and>
     length (terminateds b) = nat (buffer_size b) \<and>
     list_all (\<lambda>row. length row = action_dim) (actions b)"

text \<open>
  The buffer a successful call of \<^verbatim>\<open>store_transition\<close> leaves behind, in closed form: the
  five rows written at the write index as the arrays hold them (the observations in the
  dtype of the observation space, the reward narrowed to float32), the index advanced modulo
  the capacity, the flag raised when the index wraps.
\<close>

definition stored ::
  "'o ReplayBuffer \<Rightarrow> 'o \<Rightarrow> 'o \<Rightarrow> int \<Rightarrow> float64 \<Rightarrow> bool \<Rightarrow> 'o ReplayBuffer" where
  "stored b obs next_obs a reward terminated =
     b\<lparr> observations := (observations b)[nat (current_idx b) := to_dtype (observation_space b) obs],
        next_observations :=
          (next_observations b)[nat (current_idx b) := to_dtype (observation_space b) next_obs],
        actions := (actions b)[nat (current_idx b) := [a]],
        rewards := (rewards b)[nat (current_idx b) := to_float32 reward],
        terminateds := (terminateds b)[nat (current_idx b) := terminated],
        current_idx := (current_idx b + 1) mod buffer_size b,
        is_full := (is_full b \<or> current_idx b + 1 = buffer_size b) \<rparr>"

text \<open>The buffer \<^verbatim>\<open>__init__\<close> builds for a capacity that numpy accepts.\<close>

definition fresh_buffer :: "int \<Rightarrow> 'o Box \<Rightarrow> Discrete \<Rightarrow> ('o::zero) ReplayBuffer" where
  "fresh_buffer capacity ospace aspace =
     \<lparr> current_idx = 0, buffer_size = capacity, is_full = False,
       observation_space = ospace, action_space = aspace,
       observations = replicate (nat capacity) 0,
       next_observations = replicate (nat capacity) 0,
       actions = replicate (nat capacity) [0],
       rewards = replicate (nat capacity) (Finite 0),
       terminateds = replicate (nat capacity) False \<rparr>"

text \<open>
  The arguments of one call of \<^verbatim>\<open>store_transition\<close>, and the scenario of the claims about
  store counts: construct a buffer, then store a list of transitions.
\<close>

type_synonym 'o transition = "'o \<times> 'o \<times> int \<times> float64 \<times> bool"

definition after_stores ::
  "int \<Rightarrow> 'o Box \<Rightarrow> Discrete \<Rightarrow> ('o::zero) transition list \<Rightarrow> error + 'o ReplayBuffer" where
  "after_stores capacity ospace aspace ts =
     (case ReplayBuffer_init capacity ospace aspace of
        Inl e \<Rightarrow> Inl e
      | Inr b0 \<Rightarrow> (case store_all b0 ts of (Inl e, b) \<Rightarrow> Inl e | (Inr u, b) \<Rightarrow> Inr b))"

definition actions_fit :: "'o transition list \<Rightarrow> bool" where
  "actions_fit ts = list_all (\<lambda>(obs, next_obs, action, reward, terminated). is_int64 action) ts"

text \<open>
  The content of slot \<open>i\<close> of the five arrays, and the rows a transition is stored as in a
  buffer with a given observation space: each value in the dtype of its array.
\<close>

definition slot :: "'o ReplayBuffer \<Rightarrow> nat \<Rightarrow> 'o \<times> 'o \<times> int list \<times> float32 \<times> bool" where
  "slot b i =
     (observations b ! i, next_observations b ! i, actions b ! i, rewards b ! i, terminateds b ! i)"

definition row_of :: "'o Box \<Rightarrow> 'o transition \<Rightarrow> 'o \<times> 'o \<times> int list \<times> float32 \<times> bool" where
  "row_of ospace t = (case t of (obs, next_obs, action, reward, terminated) \<Rightarrow>
     (to_dtype ospace obs, to_dtype ospace next_obs, replicate action_dim action,
      to_float32 reward, terminated))"

text \<open>The batch gathered from the slots at a list of indices inside the arrays.\<close>

definition gather :: "'o ReplayBuffer \<Rightarrow> int list \<Rightarrow> 'o ReplayBufferSamples" where
  "gather b idxs =
     \<lparr> ReplayBufferSamples.observations = map (\<lambda>i. observations b ! nat i) idxs,
       ReplayBufferSamples.next_observations = map (\<lambda>i. next_observations b ! nat i) idxs,
       ReplayBufferSamples.actions = map (\<lambda>i. actions b ! nat i) idxs,
       ReplayBufferSamples.rewards = map (\<lambda>i. rewards b ! nat i) idxs,
       ReplayBufferSamples.terminateds = map (\<lambda>i. terminateds b ! nat i) idxs \<rparr>"

section \<open>Epsilon-greedy data collection\<close>

text \<open>
  The collaborators of the step collector, over a state \<open>'w\<close> of everything outside the
  buffer (the environment and the random generators): \<^verbatim>\<open>env.step\<close>, \<^verbatim>\<open>env.reset\<close>,
  \<^verbatim>\<open>action_space.sample\<close> and \<^verbatim>\<open>np.random.rand\<close>. Each returns its value and the new state; the
  \<^verbatim>\<open>info\<close> dictionaries, which the code only prints from, are left out. The reward of a step
  is taken as the Python float that \<^verbatim>\<open>float(reward)\<close> gives.
\<close>

record ('w, 'o) Env =
  env_step :: "'w \<Rightarrow> int \<Rightarrow> ('o \<times> float64 \<times> bool \<times> bool) \<times> 'w"
  env_reset :: "'w \<Rightarrow> 'o \<times> 'w"
  action_space_sample :: "'w \<Rightarrow> int \<times> 'w"
  np_random_rand :: "'w \<Rightarrow> real \<times> 'w"

text \<open>
  \<^verbatim>\<open>q_values.argmax().item()\<close>: the index of the first maximal value; on an empty tensor
  \<^verbatim>\<open>argmax\<close> raises IndexError.
\<close>

definition argmax :: "real list \<Rightarrow> error + int" where
  "argmax qs =
     (if qs = [] then Inl IndexError
      else Inr (int (length (takeWhile (\<lambda>q. q < Max (set qs)) qs))))"

text \<open>
  \<^verbatim>\<open>epsilon_greedy_action_selection\<close>; the Q-network is the function from an observation to
  its row of q-values.
\<close>

definition epsilon_greedy_action_selection ::
  "('o \<Rightarrow> real list) \<Rightarrow> 'o \<Rightarrow> real \<Rightarrow> ('w, 'o) Env \<Rightarrow> 'w \<Rightarrow> (error + int) \<times> 'w" where
  "epsilon_greedy_action_selection q_net observation exploration_rate env w =
     (case np_random_rand env w of (u, w1) \<Rightarrow>
        if u < exploration_rate
        then (case action_space_sample env w1 of (action, w2) \<Rightarrow> (Inr action, w2))
        else (argmax (q_net observation), w1))"

text \<open>
  \<^verbatim>\<open>collect_one_step\<close>: the value returned or the exception raised, the replay buffer and
  the outside state after the call. (The optional printing of the episode statistics is not
  modelled.)
\<close>

definition collect_one_step ::
  "('w, 'o) Env \<Rightarrow> ('o \<Rightarrow> real list) \<Rightarrow> 'o ReplayBuffer \<Rightarrow> 'o \<Rightarrow> real \<Rightarrow> 'w
     \<Rightarrow> (error + 'o) \<times> 'o ReplayBuffer \<times> 'w" where
  "collect_one_step env q_net replay_buffer obs exploration_rate w =
     (case epsilon_greedy_action_selection q_net obs exploration_rate env w of
        (Inl e, w1) \<Rightarrow> (Inl e, replay_buffer, w1)
      | (Inr action, w1) \<Rightarrow>
     (case env_step env w1 action of ((next_obs, reward, terminated, truncated), w2) \<Rightarrow>
     (case store_transition replay_buffer obs next_obs action reward terminated of
        (Inl e, b') \<Rightarrow> (Inl e, b', w2)
      | (Inr u, b') \<Rightarrow>
     let done = terminated \<or> truncated
     in if done
        then (case env_reset env w2 of (obs', w3) \<Rightarrow> (Inr obs', b', w3))
        else (Inr next_obs, b', w2))))"

section \<open>The exploration schedule\<close>

text \<open>\<^verbatim>\<open>linear_schedule\<close>.\<close>

definition linear_schedule :: "float64 \<Rightarrow> float64 \<Rightarrow> int \<Rightarrow> int \<Rightarrow> error + float64" where
  "linear_schedule initial_value final_value current_step max_steps =
     (case py_float current_step of Inl e \<Rightarrow> Inl e | Inr step \<Rightarrow>
      case py_float max_steps of Inl e \<Rightarrow> Inl e | Inr steps \<Rightarrow>
      case py_float_truediv step steps of Inl e \<Rightarrow> Inl e | Inr progress \<Rightarrow>
      let progress = np_minimum progress (fl64 1);
          current_value = fadd initial_value (fmul progress (fsub final_value initial_value))
      in Inr current_value)"

section \<open>Fixtures\<close>

text \<open>
  A small deterministic environment to run the step collector on: the state counts the
  steps of the episode, an episode is truncated at its fourth step and never terminates,
  every reward is \<^verbatim>\<open>0.1\<close>. With it, an observation space of natural numbers whose dtype
  conversion changes nothing.
\<close>

definition toy_env :: "(nat, nat) Env" where
  "toy_env = \<lparr> env_step = (\<lambda>w a. ((w + 1, fl64 (1 / 10), False, 3 \<le> w), w + 1)),
               env_reset = (\<lambda>w. (0, 0)),
               action_space_sample = (\<lambda>w. (1, w)),
               np_random_rand = (\<lambda>w. (1 / 2, w)) \<rparr>"

definition nat_box :: "nat Box" where
  "nat_box = \<lparr> to_dtype = id \<rparr>"

section \<open>Storing\<close>

text \<open>Narrowing to float32: 1.0 is kept, 0.1 becomes 0.10000000149011612.\<close>

lemma fl32_one: "fl32 1 = Finite 1"
  by code_simp

lemma to_float32_tenth: "to_float32 (fl64 (1 / 10)) = Finite (13421773 / 2 ^ 27)"
  by code_simp

lemma np_index_in_range:
  "0 \<le> i \<Longrightarrow> i < int (length xs) \<Longrightarrow> np_index xs i = Inr (nat i)"
  by (simp add: np_index_def)

lemma np_setitem_in_range:
  "0 \<le> i \<Longrightarrow> i < int (length xs) \<Longrightarrow> np_setitem xs i v = Inr (xs[nat i := v])"
  by (simp add: np_setitem_def np_index_in_range)

lemma store_transition_ok:
  assumes "buffer_inv b" and "is_int64 a"
  shows "store_transition b obs next_obs a reward terminated
           = (Inr (), stored b obs next_obs a reward terminated)"
proof -
  from assms(1) have idx: "0 \<le> current_idx b" "current_idx b < buffer_size b"
    and len: "length (observations b) = nat (buffer_size b)"
      "length (next_observations b) = nat (buffer_size b)"
      "length (actions b) = nat (buffer_size b)"
      "length (rewards b) = nat (buffer_size b)"
      "length (terminateds b) = nat (buffer_size b)"
    and rows: "list_all (\<lambda>row. length row = action_dim) (actions b)"
    by (simp_all add: buffer_inv_def)
  have row: "length (actions b ! nat (current_idx b)) = 1"
    using rows idx len by (simp add: list_all_length action_dim_def)
  show ?thesis
    using idx len row assms(2)
    by (auto simp: store_transition_def stored_def np_setitem_in_range np_index_in_range
        to_int64_def Let_def)
qed

lemma stored_inv:
  assumes "buffer_inv b"
  shows "buffer_inv (stored b obs next_obs a reward terminated)"
  using assms
  by (auto simp: buffer_inv_def stored_def list_all_length nth_list_update action_dim_def)

lemma stored_fields:
  "buffer_size (stored b obs next_obs a reward terminated) = buffer_size b"
  "current_idx (stored b obs next_obs a reward terminated) = (current_idx b + 1) mod buffer_size b"
  "is_full (stored b obs next_obs a reward terminated) = (is_full b \<or> current_idx b + 1 = buffer_size b)"
  "action_space (stored b obs next_obs a reward terminated) = action_space b"
  "observation_space (stored b obs next_obs a reward terminated) = observation_space b"
  by (simp_all add: stored_def)

lemma slot_stored:
  assumes "buffer_inv b" and "i < nat (buffer_size b)"
  shows "slot (stored b obs next_obs a reward terminated) i =
           (if i = nat (current_idx b)
            then row_of (observation_space b) (obs, next_obs, a, reward, terminated)
            else slot b i)"
  using assms
  by (auto simp: slot_def stored_def row_of_def buffer_inv_def action_dim_def)

lemma store_all_Cons_ok:
  assumes "buffer_inv b" and "is_int64 a"
  shows "store_all b ((obs, next_obs, a, reward, terminated) # ts)
           = store_all (stored b obs next_obs a reward terminated) ts"
  by (simp add: store_transition_ok [OF assms])

lemma store_all_ok:
  assumes "buffer_inv b" and "actions_fit ts"
  shows "\<exists>b'. store_all b ts = (Inr (), b') \<and> buffer_inv b' \<and>
           buffer_size b' = buffer_size b \<and> action_space b' = action_space b \<and>
           observation_space b' = observation_space b \<and>
           current_idx b' = (current_idx b + int (length ts)) mod buffer_size b \<and>
           (is_full b' \<longleftrightarrow> is_full b \<or> buffer_size b \<le> current_idx b + int (length ts))"
  using assms
proof (induction ts arbitrary: b)
  case Nil
  then show ?case by (simp add: buffer_inv_def)
next
  case (Cons t ts)
  obtain obs next_obs a reward terminated where t: "t = (obs, next_obs, a, reward, terminated)"
    by (cases t) auto
  let ?b1 = "stored b obs next_obs a reward terminated"
  from Cons.prems t have fit: "is_int64 a" and fits: "actions_fit ts"
    by (simp_all add: actions_fit_def)
  have inv1: "buffer_inv ?b1" by (rule stored_inv [OF Cons.prems(1)])
  from Cons.IH [OF inv1 fits] obtain b' where
    run: "store_all ?b1 ts = (Inr (), b')" and inv': "buffer_inv b'"
    and sz: "buffer_size b' = buffer_size ?b1" and asp: "action_space b' = action_space ?b1"
    and osp: "observation_space b' = observation_space ?b1"
    and idx: "current_idx b' = (current_idx ?b1 + int (length ts)) mod buffer_size ?b1"
    and full: "is_full b' \<longleftrightarrow> is_full ?b1 \<or> buffer_size ?b1 \<le> current_idx ?b1 + int (length ts)"
    by blast
  from Cons.prems(1) have rng: "0 \<le> current_idx b" "current_idx b < buffer_size b"
    by (simp_all add: buffer_inv_def)
  have idx': "current_idx b' = (current_idx b + int (length (t # ts))) mod buffer_size b"
  proof -
    have "((current_idx b + 1) mod buffer_size b + int (length ts)) mod buffer_size b
            = (current_idx b + 1 + int (length ts)) mod buffer_size b"
      by (rule mod_add_left_eq)
    then show ?thesis using idx by (simp add: stored_fields add.assoc)
  qed
  have full': "is_full b' \<longleftrightarrow> is_full b \<or> buffer_size b \<le> current_idx b + int (length (t # ts))"
  proof (cases "current_idx b + 1 = buffer_size b")
    case True
    then show ?thesis using full by (simp add: stored_fields)
  next
    case False
    with rng have "(current_idx b + 1) mod buffer_size b = current_idx b + 1" by simp
    with False show ?thesis using full by (auto simp: stored_fields)
  qed
  show ?case
    using run inv' sz asp osp idx' full' t
    by (simp add: store_all_Cons_ok [OF Cons.prems(1) fit] stored_fields del: store_all.simps)
qed

lemma store_all_append:
  "store_all b (xs @ ys) =
     (case store_all b xs of (Inl e, b') \<Rightarrow> (Inl e, b') | (Inr u, b') \<Rightarrow> store_all b' ys)"
  by (induction xs arbitrary: b) (auto split: prod.splits sum.splits)

lemma mod_shift_neq:
  fixes c :: int
  assumes "k < l" and "l < k + c"
  shows "(i + k) mod c \<noteq> (i + l) mod c"
proof
  assume "(i + k) mod c = (i + l) mod c"
  then have "c dvd ((i + l) - (i + k))" by (metis mod_eq_dvd_iff)
  then have "c dvd (l - k)" by simp
  moreover have "0 < l - k" "l - k < c" using assms by simp_all
  ultimately show False using zdvd_not_zless by blast
qed

lemma store_all_slots:
  assumes "buffer_inv b" and "actions_fit ts" and "store_all b ts = (r, b')"
    and "k < length ts" and "int (length ts) \<le> int k + buffer_size b"
  shows "slot b' (nat ((current_idx b + int k) mod buffer_size b))
           = row_of (observation_space b) (ts ! k)"
  using assms(2-)
proof (induction ts arbitrary: r b' k rule: rev_induct)
  case Nil
  then show ?case by simp
next
  case (snoc t ts)
  obtain obs next_obs a reward terminated where t: "t = (obs, next_obs, a, reward, terminated)"
    by (cases t) auto
  from snoc.prems(1) t have fit: "is_int64 a" and fits: "actions_fit ts"
    by (simp_all add: actions_fit_def)
  from store_all_ok [OF assms(1) fits] obtain b1 where
    run: "store_all b ts = (Inr (), b1)" and inv1: "buffer_inv b1"
    and sz: "buffer_size b1 = buffer_size b"
    and osp: "observation_space b1 = observation_space b"
    and idx: "current_idx b1 = (current_idx b + int (length ts)) mod buffer_size b"
    by blast
  have b': "b' = stored b1 obs next_obs a reward terminated"
    using snoc.prems(2) run t
    by (simp add: store_all_append store_transition_ok [OF inv1 fit])
  have pos: "0 < buffer_size b" using assms(1) by (simp add: buffer_inv_def)
  define i where "i = nat ((current_idx b + int k) mod buffer_size b)"
  have lt: "i < nat (buffer_size b1)"
    using pos sz by (simp add: i_def)
  have goal: "slot b' i = row_of (observation_space b) ((ts @ [t]) ! k)"
  proof (cases "k = length ts")
    case True
    with idx have "i = nat (current_idx b1)" by (simp add: i_def)
    with slot_stored [OF inv1 lt, of obs next_obs a reward terminated] show ?thesis
      using True t osp by (simp add: b')
  next
    case False
    with snoc.prems(3) have k: "k < length ts" by simp
    from snoc.prems(4) have le: "int (length ts) \<le> int k + buffer_size b" by simp
    have "(current_idx b + int k) mod buffer_size b
            \<noteq> (current_idx b + int (length ts)) mod buffer_size b"
      using k snoc.prems(4) by (intro mod_shift_neq) simp_all
    moreover have "0 \<le> (current_idx b + int k) mod buffer_size b"
      "0 \<le> (current_idx b + int (length ts)) mod buffer_size b"
      using pos by simp_all
    ultimately have ne: "i \<noteq> nat (current_idx b1)"
      using idx by (simp add: i_def)
    have "slot b1 i = row_of (observation_space b) (ts ! k)"
      using snoc.IH [OF fits run k le] by (simp add: i_def)
    then show ?thesis
      using ne k by (simp add: b' slot_stored [OF inv1 lt] nth_append)
  qed
  then show ?case by (simp add: i_def)
qed

lemma ReplayBuffer_init_ok:
  "0 \<le> capacity \<Longrightarrow> ReplayBuffer_init capacity ospace aspace = Inr (fresh_buffer capacity ospace aspace)"
  by (simp add: ReplayBuffer_init_def np_zeros_def fresh_buffer_def action_dim_def)

lemma fresh_buffer_inv:
  "1 \<le> capacity \<Longrightarrow> buffer_inv (fresh_buffer capacity ospace aspace)"
  by (simp add: buffer_inv_def fresh_buffer_def list_all_length action_dim_def)

lemma after_stores_ok:
  fixes ts :: "('o::zero) transition list"
  assumes "1 \<le> capacity" and "actions_fit ts"
  shows "\<exists>b. after_stores capacity ospace aspace ts = Inr b \<and>
           store_all (fresh_buffer capacity ospace aspace) ts = (Inr (), b) \<and> buffer_inv b \<and>
           buffer_size b = capacity \<and> action_space b = aspace \<and>
           observation_space b = ospace \<and>
           current_idx b = int (length ts) mod capacity \<and>
           (is_full b \<longleftrightarrow> capacity \<le> int (length ts))"
proof -
  let ?b0 = "fresh_buffer capacity ospace aspace :: 'o ReplayBuffer"
  from store_all_ok [OF fresh_buffer_inv [OF assms(1)] assms(2), of ospace aspace]
  obtain b where run: "store_all ?b0 ts = (Inr (), b)" and inv: "buffer_inv b"
    and flds: "buffer_size b = buffer_size ?b0" "action_space b = action_space ?b0"
      "observation_space b = observation_space ?b0"
      "current_idx b = (current_idx ?b0 + int (length ts)) mod buffer_size ?b0"
      "is_full b \<longleftrightarrow> is_full ?b0 \<or> buffer_size ?b0 \<le> current_idx ?b0 + int (length ts)"
    by blast
  have "after_stores capacity ospace aspace ts = Inr b"
    using assms(1) run by (simp add: after_stores_def ReplayBuffer_init_ok)
  then show ?thesis
    using run inv flds by (simp add: fresh_buffer_def)
qed

lemma store_transition_keeps_full:
  "is_full b \<Longrightarrow> is_full (snd (store_transition b obs next_obs a reward terminated))"
  by (simp add: store_transition_def Let_def split: sum.splits)

section \<open>The full flag\<close>

text \<open>
  Claim C1. On a freshly constructed buffer of capacity at least 1, after any sequence of
  stores the flag \<^verbatim>\<open>is_full\<close> is set exactly when at least \<open>capacity\<close> transitions have been
  stored; at exactly \<open>capacity\<close> stores the write index is back at 0. A call of
  \<^verbatim>\<open>store_transition\<close> on any buffer whose flag is set leaves it set, whether the call
  returns or raises (\<^verbatim>\<open>sample\<close> does not change the buffer at all).
\<close>

theorem is_full_after_capacity_stores:
  fixes ts :: "('o::zero) transition list"
  assumes "1 \<le> capacity" and "actions_fit ts"
  shows "(\<exists>b. after_stores capacity ospace aspace ts = Inr b \<and>
              (is_full b \<longleftrightarrow> capacity \<le> int (length ts)) \<and>
              (int (length ts) = capacity \<longrightarrow> current_idx b = 0)) \<and>
         (\<forall>(b0 :: 'o ReplayBuffer) obs next_obs a reward terminated.
              is_full b0 \<longrightarrow> is_full (snd (store_transition b0 obs next_obs a reward terminated)))"
proof -
  from after_stores_ok [OF assms, of ospace aspace] obtain b where
    "after_stores capacity ospace aspace ts = Inr b"
    "is_full b \<longleftrightarrow> capacity \<le> int (length ts)"
    "current_idx b = int (length ts) mod capacity"
    by blast
  then show ?thesis
    by (auto simp: store_transition_keeps_full)
qed

theorem is_full_after_capacity_stores_witness:
  "1 \<le> (2::int) \<and>
   actions_fit [(0::nat, 1::nat, 0, Finite 1, False), (1, 2, 1, Finite 1, False), (2, 3, 0, Finite 1, True)] \<and>
   map_sum id is_full (after_stores 2 nat_box (Discrete 2)
       [(0::nat, 1::nat, 0, Finite 1, False), (1, 2, 1, Finite 1, False), (2, 3, 0, Finite 1, True)]) = Inr True \<and>
   map_sum id is_full (after_stores 2 nat_box (Discrete 2)
       [(0::nat, 1::nat, 0, Finite 1, False), (1, 2, 1, Finite 1, False)]) = Inr True \<and>
   map_sum id current_idx (after_stores 2 nat_box (Discrete 2)
       [(0::nat, 1::nat, 0, Finite 1, False), (1, 2, 1, Finite 1, False)]) = Inr 0 \<and>
   map_sum id is_full (after_stores 2 nat_box (Discrete 2)
       [(0::nat, 1::nat, 0, Finite 1, False)]) = Inr False \<and>
   is_full ((fresh_buffer 1 nat_box (Discrete 2) :: nat ReplayBuffer)\<lparr>is_full := True\<rparr>) \<and>
   is_full (snd (store_transition
       ((fresh_buffer 1 nat_box (Discrete 2) :: nat ReplayBuffer)\<lparr>is_full := True\<rparr>) 0 1 0 (Finite 1) False))"
  using is_full_after_capacity_stores [of 2 "[(0::nat, 1::nat, 0, Finite 1, False), (1, 2, 1, Finite 1, False), (2, 3, 0, Finite 1, True)]" nat_box "Discrete 2"]
    is_full_after_capacity_stores [of 2 "[(0::nat, 1::nat, 0, Finite 1, False), (1, 2, 1, Finite 1, False)]" nat_box "Discrete 2"]
    is_full_after_capacity_stores [of 2 "[(0::nat, 1::nat, 0, Finite 1, False)]" nat_box "Discrete 2"]
  by (auto simp: actions_fit_def is_int64_def)

section \<open>The write index and the sampleable range\<close>

lemma upper_bound_after:
  assumes "buffer_inv b"
  shows "0 \<le> upper_bound b" and "upper_bound b \<le> buffer_size b"
  using assms by (simp_all add: upper_bound_def buffer_inv_def)

text \<open>
  Claim C2. After \<open>capacity + k\<close> stores on a fresh buffer of capacity at least 1, the write
  index is \<open>k mod capacity\<close> and the upper bound \<^verbatim>\<open>sample\<close> computes is \<open>capacity\<close>.
\<close>

theorem write_index_after_wrap:
  fixes ts :: "('o::zero) transition list"
  assumes "1 \<le> capacity" and "actions_fit ts" and "int (length ts) = capacity + int k"
  shows "\<exists>b. after_stores capacity ospace aspace ts = Inr b \<and>
           current_idx b = int k mod capacity \<and> upper_bound b = capacity"
proof -
  from after_stores_ok [OF assms(1,2), of ospace aspace] obtain b where
    b: "after_stores capacity ospace aspace ts = Inr b" "buffer_size b = capacity"
    "current_idx b = int (length ts) mod capacity"
    "is_full b \<longleftrightarrow> capacity \<le> int (length ts)"
    by blast
  from b(3) assms(3) have "current_idx b = int k mod capacity" by simp
  moreover from b(4) assms(3) have "is_full b" by simp
  ultimately show ?thesis using b(1,2) by (simp add: upper_bound_def)
qed

theorem write_index_after_wrap_witness:
  "1 \<le> (2::int) \<and>
   actions_fit [(0::nat, 1::nat, 0, Finite 1, False), (1, 2, 1, Finite 1, False), (2, 3, 0, Finite 1, True)] \<and>
   int (length [(0::nat, 1::nat, 0, Finite 1, False), (1, 2, 1, Finite 1, False), (2, 3, 0, Finite 1, True)]) = 2 + int 1 \<and>
   map_sum id current_idx (after_stores 2 nat_box (Discrete 2)
       [(0::nat, 1::nat, 0, Finite 1, False), (1, 2, 1, Finite 1, False), (2, 3, 0, Finite 1, True)]) = Inr 1 \<and>
   map_sum id upper_bound (after_stores 2 nat_box (Discrete 2)
       [(0::nat, 1::nat, 0, Finite 1, False), (1, 2, 1, Finite 1, False), (2, 3, 0, Finite 1, True)]) = Inr 2"
  using write_index_after_wrap [of 2 "[(0::nat, 1::nat, 0, Finite 1, False), (1, 2, 1, Finite 1, False), (2, 3, 0, Finite 1, True)]" 1 nat_box "Discrete 2"]
  by (auto simp: actions_fit_def is_int64_def)

text \<open>
  With capacity 2 and \<open>n = 2\<close> stores, \<open>n \<le> capacity\<close> and the flag is set.
\<close>

theorem not_full_upto_capacity_counterexample:
  "int (length [(0::nat, 1::nat, 0::int, Finite 1, False), (1, 2, 1, Finite 1, False)]) \<le> 2 \<and>
   map_sum id is_full (after_stores 2 nat_box (Discrete 2)
       [(0::nat, 1::nat, 0, Finite 1, False), (1, 2, 1, Finite 1, False)]) = Inr True"
  by (simp add: after_stores_def ReplayBuffer_init_def np_zeros_def store_transition_def
      np_setitem_def np_index_def to_int64_def is_int64_def action_dim_def Let_def
      eval_nat_numeral)

text \<open>
  Claim C4, as the code has it. After \<open>n \<le> capacity\<close> stores on a fresh buffer the upper bound
  \<^verbatim>\<open>sample\<close> computes is \<open>n\<close>, and \<^verbatim>\<open>is_full\<close> is false as long as \<open>n < capacity\<close>. (At
  \<open>n = capacity\<close> the flag is set: see the counterexample above.)
\<close>

theorem populated_range_upto_capacity:
  fixes ts :: "('o::zero) transition list"
  assumes "0 \<le> capacity" and "actions_fit ts" and "int (length ts) \<le> capacity"
  shows "\<exists>b. after_stores capacity ospace aspace ts = Inr b \<and> upper_bound b = int (length ts) \<and>
           (int (length ts) < capacity \<longrightarrow> \<not> is_full b)"
proof (cases "capacity = 0")
  case True
  with assms(3) have "ts = []" by simp
  with True show ?thesis
    by (simp add: after_stores_def ReplayBuffer_init_ok upper_bound_def fresh_buffer_def)
next
  case False
  with assms(1) have pos: "1 \<le> capacity" by simp
  from after_stores_ok [OF pos assms(2), of ospace aspace] obtain b where
    b: "after_stores capacity ospace aspace ts = Inr b" "buffer_size b = capacity"
    "current_idx b = int (length ts) mod capacity"
    "is_full b \<longleftrightarrow> capacity \<le> int (length ts)"
    by blast
  have "upper_bound b = int (length ts)"
    using b(2-4) assms(3) by (auto simp: upper_bound_def)
  then show ?thesis using b(1,4) by auto
qed

theorem populated_range_upto_capacity_witness:
  "0 \<le> (2::int) \<and> actions_fit [(0::nat, 1::nat, 0, Finite 1, False)] \<and>
   int (length [(0::nat, 1::nat, 0::int, Finite 1, False)]) \<le> 2 \<and>
   map_sum id upper_bound (after_stores 2 nat_box (Discrete 2) [(0::nat, 1::nat, 0, Finite 1, False)]) = Inr 1 \<and>
   map_sum id is_full (after_stores 2 nat_box (Discrete 2) [(0::nat, 1::nat, 0, Finite 1, False)]) = Inr False"
  using populated_range_upto_capacity [of 2 "[(0::nat, 1::nat, 0, Finite 1, False)]" nat_box "Discrete 2"]
  by (auto simp: actions_fit_def is_int64_def)

section \<open>Construction\<close>

text \<open>The capacity 0 constructs a buffer.\<close>

theorem init_zero_capacity_counterexample:
  "(ReplayBuffer_init 0 nat_box (Discrete 2) :: error + nat ReplayBuffer) =
     Inr \<lparr> current_idx = 0, buffer_size = 0, is_full = False,
           observation_space = nat_box, action_space = Discrete 2,
           observations = [], next_observations = [], actions = [],
           rewards = [], terminateds = [] \<rparr>"
  by (simp add: ReplayBuffer_init_def np_zeros_def)

text \<open>
  Claim C8, as the code has it. The constructor has no check of its own: a negative capacity
  raises because numpy refuses to allocate an array of negative length, and the capacity 0
  is accepted and gives a buffer with empty arrays.
\<close>

theorem init_negative_capacity_raises:
  "(capacity < 0 \<longrightarrow>
      (ReplayBuffer_init capacity ospace aspace :: error + ('o::zero) ReplayBuffer) = Inl ValueError) \<and>
   (ReplayBuffer_init 0 ospace aspace :: error + 'o ReplayBuffer) = Inr (fresh_buffer 0 ospace aspace)"
  by (simp add: ReplayBuffer_init_ok) (simp add: ReplayBuffer_init_def np_zeros_def)

theorem init_negative_capacity_raises_witness:
  "(-1::int) < 0 \<and>
   (ReplayBuffer_init (-1) nat_box (Discrete 2) :: error + nat ReplayBuffer) = Inl ValueError"
  using init_negative_capacity_raises [of "-1" nat_box "Discrete 2"]
  by simp

section \<open>Actions outside the action space\<close>

text \<open>
  With two actions, the action 7 is stored without an error.
\<close>

theorem store_invalid_action_counterexample:
  "action_space (fresh_buffer 4 nat_box (Discrete 2) :: nat ReplayBuffer) = Discrete 2 \<and>
   \<not> (0 \<le> (7::int) \<and> (7::int) < 2) \<and>
   fst (store_transition (fresh_buffer 4 nat_box (Discrete 2) :: nat ReplayBuffer) 0 1 7 (Finite 1) False) = Inr () \<and>
   actions (snd (store_transition (fresh_buffer 4 nat_box (Discrete 2) :: nat ReplayBuffer) 0 1 7 (Finite 1) False))
     = [[7], [0], [0], [0]]"
  by (simp add: store_transition_ok fresh_buffer_inv is_int64_def)
     (simp add: stored_def fresh_buffer_def eval_nat_numeral)

lemma store_transition_overflow:
  assumes "buffer_inv b" and "\<not> is_int64 a"
  shows "fst (store_transition b obs next_obs a reward terminated) = Inl OverflowError"
    and "current_idx (snd (store_transition b obs next_obs a reward terminated)) = current_idx b"
    and "actions (snd (store_transition b obs next_obs a reward terminated)) = actions b"
    and "is_full (snd (store_transition b obs next_obs a reward terminated)) = is_full b"
  using assms
  by (simp_all add: store_transition_def buffer_inv_def np_setitem_in_range np_index_in_range
      to_int64_def Let_def)

text \<open>
  Claim C9, as the code has it. \<^verbatim>\<open>store_transition\<close> never compares the action with the
  number of actions of the action space: on a buffer of positive capacity every action that
  fits the int64 array is stored as given, and one that does not fit raises OverflowError
  and leaves the write index and the stored actions as they were.
\<close>

theorem store_transition_action_unchecked:
  assumes "buffer_inv b"
  shows "(is_int64 a \<longrightarrow>
            fst (store_transition b obs next_obs a reward terminated) = Inr () \<and>
            actions (snd (store_transition b obs next_obs a reward terminated)) ! nat (current_idx b) = [a]) \<and>
         (\<not> is_int64 a \<longrightarrow>
            fst (store_transition b obs next_obs a reward terminated) = Inl OverflowError \<and>
            current_idx (snd (store_transition b obs next_obs a reward terminated)) = current_idx b \<and>
            actions (snd (store_transition b obs next_obs a reward terminated)) = actions b)"
proof -
  have "nat (current_idx b) < length (actions b)"
    using assms by (simp add: buffer_inv_def)
  then show ?thesis
    using assms by (simp add: store_transition_ok store_transition_overflow stored_def)
qed

theorem store_transition_action_unchecked_witness:
  "buffer_inv (fresh_buffer 4 nat_box (Discrete 2) :: nat ReplayBuffer) \<and> is_int64 (-3) \<and>
   \<not> is_int64 (2 ^ 63) \<and>
   fst (store_transition (fresh_buffer 4 nat_box (Discrete 2) :: nat ReplayBuffer) 0 1 (-3) (Finite 1) False) = Inr () \<and>
   actions (snd (store_transition (fresh_buffer 4 nat_box (Discrete 2) :: nat ReplayBuffer) 0 1 (-3) (Finite 1) False)) ! 0 = [-3] \<and>
   fst (store_transition (fresh_buffer 4 nat_box (Discrete 2) :: nat ReplayBuffer) 0 1 (2 ^ 63) (Finite 1) False) = Inl OverflowError"
  using store_transition_action_unchecked [of "fresh_buffer 4 nat_box (Discrete 2) :: nat ReplayBuffer" "-3" 0 1 "Finite 1" False]
    store_transition_action_unchecked [of "fresh_buffer 4 nat_box (Discrete 2) :: nat ReplayBuffer" "2 ^ 63" 0 1 "Finite 1" False]
  by (simp add: fresh_buffer_inv is_int64_def) (simp add: fresh_buffer_def)

section \<open>Sampling from an empty buffer\<close>

text \<open>
  Claim C7. On a buffer in which nothing was ever stored (\<^verbatim>\<open>is_full\<close> false, write index 0)
  the upper bound is 0 and \<^verbatim>\<open>sample\<close> raises ValueError instead of returning a batch, for every
  batch size of its contract (a positive integer), and for every negative one as well.
\<close>

theorem sample_empty_buffer_raises:
  assumes "\<not> is_full b" and "current_idx b = 0" and "batch_size \<noteq> 0"
  shows "upper_bound b = 0 \<and> sample b batch_size g = Inl ValueError"
  using assms
  by (simp add: upper_bound_def sample_def batch_indices_def np_random_randint_def)

theorem sample_empty_buffer_raises_witness:
  "\<not> is_full (fresh_buffer 4 nat_box (Discrete 2) :: nat ReplayBuffer) \<and>
   current_idx (fresh_buffer 4 nat_box (Discrete 2) :: nat ReplayBuffer) = 0 \<and> (32::int) \<noteq> 0 \<and>
   sample (fresh_buffer 4 nat_box (Discrete 2) :: nat ReplayBuffer) 32 id = Inl ValueError"
  using sample_empty_buffer_raises [of "fresh_buffer 4 nat_box (Discrete 2) :: nat ReplayBuffer" 32 id]
  by (simp add: fresh_buffer_def)

text \<open>
  The batch size 0 is outside the contract of \<^verbatim>\<open>sample\<close>, and nothing is drawn for it: numpy
  returns the empty array of indices before it looks at the bounds, so the batch is empty.
\<close>

lemma sample_zero_batch_empty:
  "(ReplayBuffer_init 4 nat_box (Discrete 2) :: error + nat ReplayBuffer) = Inr (fresh_buffer 4 nat_box (Discrete 2)) \<and>
   upper_bound (fresh_buffer 4 nat_box (Discrete 2) :: nat ReplayBuffer) = 0 \<and>
   map_sum id fst (sample (fresh_buffer 4 nat_box (Discrete 2) :: nat ReplayBuffer) 0 id) =
     Inr \<lparr> ReplayBufferSamples.observations = [], ReplayBufferSamples.next_observations = [],
           ReplayBufferSamples.actions = [], ReplayBufferSamples.rewards = [],
           ReplayBufferSamples.terminateds = [] \<rparr>"
  by (simp add: ReplayBuffer_init_ok sample_def batch_indices_def np_random_randint_def
      upper_bound_def) (simp add: fresh_buffer_def)

section \<open>Sampling\<close>

lemma np_take_in_range:
  assumes "\<forall>i\<in>set idxs. 0 \<le> i \<and> i < int (length xs)"
  shows "np_take xs idxs = Inr (map (\<lambda>i. xs ! nat i) idxs)"
  using assms by (induction idxs) (simp_all add: np_index_in_range)

lemma np_random_randint_range:
  assumes "np_random_randint g low high n = Inr (idxs, g')"
  shows "length idxs = nat n" and "\<forall>i\<in>set idxs. low \<le> i \<and> i < high"
proof -
  have "low + int (g k) mod (high - low) < high" if "low < high" for k
  proof -
    from that have "int (g k) mod (high - low) < high - low" by (intro pos_mod_bound) simp
    then show ?thesis by simp
  qed
  moreover have "low \<le> low + int (g k) mod (high - low)" if "low < high" for k
    using that by simp
  ultimately show "length idxs = nat n" and "\<forall>i\<in>set idxs. low \<le> i \<and> i < high"
    using assms by (auto simp: np_random_randint_def split: if_splits)
qed

lemma np_random_randint_ok:
  assumes "low < high" and "0 \<le> n"
  shows "\<exists>idxs g'. np_random_randint g low high n = Inr (idxs, g')"
  using assms by (simp add: np_random_randint_def)

text \<open>
  The generator model leaves out no behaviour of \<^verbatim>\<open>randint\<close>: every non-empty list of indices
  of \<open>[low, high)\<close> is what some generator draws.
\<close>

lemma np_random_randint_complete:
  assumes "idxs \<noteq> []" and "\<forall>i\<in>set idxs. low \<le> i \<and> i < high"
  shows "\<exists>g g'. np_random_randint g low high (int (length idxs)) = Inr (idxs, g')"
proof -
  define g where "g k = nat (idxs ! k - low)" for k
  from assms have lh: "low < high" by (cases idxs) auto
  have "low + int (g k) mod (high - low) = idxs ! k" if "k < length idxs" for k
  proof -
    define d where "d = idxs ! k - low"
    from that assms(2) have "low \<le> idxs ! k" "idxs ! k < high" by simp_all
    then have d: "0 \<le> d" "d < high - low" by (simp_all add: d_def)
    then have "d mod (high - low) = d" by (rule mod_pos_pos_trivial)
    moreover have "int (g k) = d" using d(1) by (simp add: g_def d_def)
    ultimately have "low + int (g k) mod (high - low) = low + d" by (simp only:)
    then show ?thesis by (simp add: d_def)
  qed
  then have "map (\<lambda>k. low + int (g k) mod (high - low)) [0..<length idxs] = idxs"
    by (intro nth_equalityI) simp_all
  with assms(1) lh show ?thesis
    by (auto simp: np_random_randint_def)
qed

lemma sample_gather:
  assumes "buffer_inv b" and "batch_indices b batch_size g = Inr (idxs, g')"
  shows "sample b batch_size g = Inr (gather b idxs, g')"
proof -
  from np_random_randint_range(2) [OF assms(2) [unfolded batch_indices_def]]
  have "\<forall>i\<in>set idxs. 0 \<le> i \<and> i < upper_bound b" .
  with upper_bound_after(2) [OF assms(1)]
  have rng: "\<forall>i\<in>set idxs. 0 \<le> i \<and> i < buffer_size b" by force
  from assms(1) have len: "length (observations b) = nat (buffer_size b)"
      "length (next_observations b) = nat (buffer_size b)"
      "length (actions b) = nat (buffer_size b)"
      "length (rewards b) = nat (buffer_size b)"
      "length (terminateds b) = nat (buffer_size b)"
    by (simp_all add: buffer_inv_def)
  from assms(1) have pos: "0 \<le> buffer_size b" by (simp add: buffer_inv_def)
  have take: "np_take (observations b) idxs = Inr (map (\<lambda>i. observations b ! nat i) idxs)"
    "np_take (next_observations b) idxs = Inr (map (\<lambda>i. next_observations b ! nat i) idxs)"
    "np_take (actions b) idxs = Inr (map (\<lambda>i. actions b ! nat i) idxs)"
    "np_take (rewards b) idxs = Inr (map (\<lambda>i. rewards b ! nat i) idxs)"
    "np_take (terminateds b) idxs = Inr (map (\<lambda>i. terminateds b ! nat i) idxs)"
    using rng len pos by (simp_all add: np_take_in_range)
  show ?thesis
    using assms(2) take by (simp add: sample_def gather_def)
qed

lemma written_slot:
  fixes ts :: "('o::zero) transition list"
  assumes "1 \<le> capacity" and "actions_fit ts"
    and "store_all (fresh_buffer capacity ospace aspace) ts = (Inr (), b)"
    and "upper_bound b = min (int (length ts)) capacity"
    and "0 \<le> i" and "i < upper_bound b"
  shows "\<exists>k<length ts. slot b (nat i) = row_of ospace (ts ! k)"
proof -
  let ?n = "int (length ts)"
  define d where "d = (?n - 1 - i) mod capacity"
  define k where "k = ?n - 1 - d"
  have i: "i < ?n" "i < capacity" using assms(4,6) by simp_all
  have d: "0 \<le> d" "d < capacity" using assms(1) by (simp_all add: d_def)
  have "d \<le> ?n - 1 - i"
    unfolding d_def using i(1) assms(1) by (intro zmod_le_nonneg_dividend) simp
  then have k0: "0 \<le> k" "k < ?n" using assms(5) d(1) by (simp_all add: k_def)
  have kmod: "k mod capacity = i"
  proof -
    have "(?n - 1 - i - d) mod capacity = 0"
      unfolding d_def by (simp add: mod_diff_right_eq)
    then have "capacity dvd (k - i)" by (simp add: k_def algebra_simps mod_eq_0_iff_dvd)
    then have "k mod capacity = i mod capacity" by (simp add: mod_eq_dvd_iff)
    with assms(5) i(2) show ?thesis by simp
  qed
  have inv0: "buffer_inv (fresh_buffer capacity ospace aspace :: 'o ReplayBuffer)"
    by (rule fresh_buffer_inv [OF assms(1)])
  have "slot b (nat ((current_idx (fresh_buffer capacity ospace aspace :: 'o ReplayBuffer) + int (nat k))
            mod buffer_size (fresh_buffer capacity ospace aspace :: 'o ReplayBuffer)))
          = row_of (observation_space (fresh_buffer capacity ospace aspace :: 'o ReplayBuffer)) (ts ! nat k)"
    using k0 d(2) by (intro store_all_slots [OF inv0 assms(2,3)]) (simp_all add: fresh_buffer_def k_def)
  then have "slot b (nat i) = row_of ospace (ts ! nat k)"
    using k0 kmod by (simp add: fresh_buffer_def)
  moreover have "nat k < length ts" using k0 by simp
  ultimately show ?thesis by blast
qed

text \<open>
  Claim C3. On a buffer in which at least one transition was stored (capacity at least 1),
  a call of \<^verbatim>\<open>sample\<close> with a batch size \<open>batch_size \<ge> 0\<close> draws \<open>batch_size\<close> indices, each in
  \<open>[0, upper_bound)\<close> with \<open>upper_bound = capacity if is_full else write_index\<close>, which is the
  number of populated slots; every drawn index is a slot that one of the stores wrote (it
  holds the row of that transition as the arrays hold it: the observations in the dtype of
  the observation space, the reward narrowed to float32), and the batch returned is the
  content of the drawn slots. In the witness, with capacity 4 and three stores, the index 3
  is not drawn.
\<close>

theorem sampled_indices_in_populated_range:
  fixes ts :: "('o::zero) transition list"
  assumes "1 \<le> capacity" and "actions_fit ts" and "ts \<noteq> []" and "0 \<le> batch_size"
  shows "\<exists>b idxs g'. after_stores capacity ospace aspace ts = Inr b \<and>
           upper_bound b = (if is_full b then capacity else current_idx b) \<and>
           upper_bound b = min (int (length ts)) capacity \<and>
           batch_indices b batch_size g = Inr (idxs, g') \<and>
           sample b batch_size g = Inr (gather b idxs, g') \<and>
           length idxs = nat batch_size \<and>
           (\<forall>i\<in>set idxs. 0 \<le> i \<and> i < upper_bound b \<and>
                (\<exists>k<length ts. slot b (nat i) = row_of ospace (ts ! k)))"
proof -
  from after_stores_ok [OF assms(1,2), of ospace aspace] obtain b where
    b: "after_stores capacity ospace aspace ts = Inr b"
    "store_all (fresh_buffer capacity ospace aspace) ts = (Inr (), b)" "buffer_inv b"
    "buffer_size b = capacity"
    "current_idx b = int (length ts) mod capacity"
    "is_full b \<longleftrightarrow> capacity \<le> int (length ts)"
    by blast
  have ub: "upper_bound b = min (int (length ts)) capacity"
    using b(4-6) by (auto simp: upper_bound_def)
  with assms(1,3) have "0 < upper_bound b" by (cases ts) simp_all
  from np_random_randint_ok [OF this assms(4)] obtain idxs g' where
    draw: "batch_indices b batch_size g = Inr (idxs, g')"
    unfolding batch_indices_def by blast
  note rng = np_random_randint_range [OF draw [unfolded batch_indices_def]]
  have "\<forall>i\<in>set idxs. 0 \<le> i \<and> i < upper_bound b \<and>
          (\<exists>k<length ts. slot b (nat i) = row_of ospace (ts ! k))"
    using rng(2) written_slot [OF assms(1,2) b(2) ub] by blast
  then show ?thesis
    using b(1,4) ub draw sample_gather [OF b(3) draw] rng(1)
    by (auto simp: upper_bound_def)
qed

theorem sampled_indices_in_populated_range_witness:
  "1 \<le> (4::int) \<and>
   actions_fit [(10::nat, 11::nat, 0, fl64 (1 / 10), False), (11, 12, 1, Finite 1, False),
                (12, 13, 0, Finite 1, False)] \<and>
   [(10::nat, 11::nat, 0::int, fl64 (1 / 10), False), (11, 12, 1, Finite 1, False),
    (12, 13, 0, Finite 1, False)] \<noteq> [] \<and>
   0 \<le> (8::int) \<and>
   map_sum id is_full (after_stores 4 nat_box (Discrete 2)
     [(10::nat, 11::nat, 0, fl64 (1 / 10), False), (11, 12, 1, Finite 1, False),
      (12, 13, 0, Finite 1, False)]) = Inr False \<and>
   map_sum id (\<lambda>b. map_sum id fst (batch_indices b 8 id))
     (after_stores 4 nat_box (Discrete 2)
       [(10::nat, 11::nat, 0, fl64 (1 / 10), False), (11, 12, 1, Finite 1, False),
        (12, 13, 0, Finite 1, False)])
     = Inr (Inr [0, 1, 2, 0, 1, 2, 0, 1]) \<and>
   map_sum id (\<lambda>b. slot b 0)
     (after_stores 4 nat_box (Discrete 2)
       [(10::nat, 11::nat, 0, fl64 (1 / 10), False), (11, 12, 1, Finite 1, False),
        (12, 13, 0, Finite 1, False)])
     = Inr (10, 11, [0], Finite (13421773 / 2 ^ 27), False)"
  using sampled_indices_in_populated_range [of 4
      "[(10::nat, 11::nat, 0, fl64 (1 / 10), False), (11, 12, 1, Finite 1, False),
        (12, 13, 0, Finite 1, False)]" 8 nat_box "Discrete 2" id]
  by (simp add: actions_fit_def is_int64_def after_stores_def ReplayBuffer_init_def np_zeros_def
      store_transition_def np_setitem_def np_index_def to_int64_def action_dim_def Let_def
      batch_indices_def upper_bound_def np_random_randint_def eval_nat_numeral
      nat_box_def slot_def fl32_one to_float32_tenth)

text \<open>
  Claim C10. On a buffer with at least one stored transition and for \<open>batch_size \<ge> 1\<close>,
  \<^verbatim>\<open>sample\<close> returns \<open>batch_size\<close> action rows of one entry each (shape \<open>(batch_size, 1)\<close>),
  while the rewards and the terminated flags are flat vectors of length \<open>batch_size\<close>; the
  five arrays agree in their first dimension only.
\<close>

theorem sample_shapes:
  fixes ts :: "('o::zero) transition list"
  assumes "1 \<le> capacity" and "actions_fit ts" and "ts \<noteq> []" and "1 \<le> batch_size"
  shows "\<exists>b s g'. after_stores capacity ospace aspace ts = Inr b \<and>
           sample b batch_size g = Inr (s, g') \<and>
           length (ReplayBufferSamples.actions s) = nat batch_size \<and>
           list_all (\<lambda>row. length row = 1) (ReplayBufferSamples.actions s) \<and>
           length (ReplayBufferSamples.rewards s) = nat batch_size \<and>
           length (ReplayBufferSamples.terminateds s) = nat batch_size \<and>
           length (ReplayBufferSamples.observations s) = nat batch_size \<and>
           length (ReplayBufferSamples.next_observations s) = nat batch_size"
proof -
  from after_stores_ok [OF assms(1,2), of ospace aspace] obtain b where
    b: "after_stores capacity ospace aspace ts = Inr b" "buffer_inv b"
    "buffer_size b = capacity"
    "current_idx b = int (length ts) mod capacity"
    "is_full b \<longleftrightarrow> capacity \<le> int (length ts)"
    by blast
  have "upper_bound b = min (int (length ts)) capacity"
    using b(3-5) by (auto simp: upper_bound_def)
  with assms(1,3) have "0 < upper_bound b" by (cases ts) simp_all
  moreover from assms(4) have "0 \<le> batch_size" by simp
  ultimately obtain idxs g' where draw: "batch_indices b batch_size g = Inr (idxs, g')"
    unfolding batch_indices_def using np_random_randint_ok by blast
  note rng = np_random_randint_range [OF draw [unfolded batch_indices_def]]
  have rows: "length (actions b ! nat i) = 1" if "i \<in> set idxs" for i
  proof -
    from rng(2) that upper_bound_after(2) [OF b(2)] have "0 \<le> i" "i < buffer_size b" by force+
    with b(2) show ?thesis
      by (simp add: buffer_inv_def list_all_length action_dim_def)
  qed
  have "list_all (\<lambda>row. length row = 1) (ReplayBufferSamples.actions (gather b idxs))"
    using rows by (simp add: gather_def list_all_iff)
  then show ?thesis
    using b(1) sample_gather [OF b(2) draw] rng(1) by (simp add: gather_def)
qed

theorem sample_shapes_witness:
  "1 \<le> (4::int) \<and>
   actions_fit [(10::nat, 11::nat, 0, Finite 1, False), (11, 12, 1, Finite 1, False), (12, 13, 0, Finite 1, True)] \<and>
   [(10::nat, 11::nat, 0::int, Finite 1, False), (11, 12, 1, Finite 1, False), (12, 13, 0, Finite 1, True)] \<noteq> [] \<and>
   1 \<le> (5::int) \<and>
   map_sum id (\<lambda>b. map_sum id fst (sample b 5 id))
     (after_stores 4 nat_box (Discrete 2)
       [(10::nat, 11::nat, 0, Finite 1, False), (11, 12, 1, Finite 1, False), (12, 13, 0, Finite 1, True)])
     = Inr (Inr \<lparr> ReplayBufferSamples.observations = [10, 11, 12, 10, 11],
                   ReplayBufferSamples.next_observations = [11, 12, 13, 11, 12],
                   ReplayBufferSamples.actions = [[0], [1], [0], [0], [1]],
                   ReplayBufferSamples.rewards = [Finite 1, Finite 1, Finite 1, Finite 1, Finite 1],
                   ReplayBufferSamples.terminateds = [False, False, True, False, False] \<rparr>)"
  using sample_shapes [of 4
      "[(10::nat, 11::nat, 0, Finite 1, False), (11, 12, 1, Finite 1, False), (12, 13, 0, Finite 1, True)]" 5
      nat_box "Discrete 2" id]
  by (simp add: actions_fit_def is_int64_def after_stores_def ReplayBuffer_init_def np_zeros_def
      store_transition_def np_setitem_def np_index_def to_int64_def action_dim_def Let_def
      sample_def batch_indices_def upper_bound_def np_random_randint_def eval_nat_numeral
      nat_box_def fl32_one)

section \<open>Collecting one step\<close>

text \<open>
  Claim C5. When the selected action is \<open>a\<close> and the environment answers the step with
  \<open>(next_obs, reward, terminated, truncated)\<close>, \<^verbatim>\<open>collect_one_step\<close> on a buffer of positive
  capacity calls \<^verbatim>\<open>store_transition\<close> with \<open>(obs, next_obs, a, reward, terminated)\<close>, and the slot
  at the write index then holds this quintuple as the arrays hold it: the two observations in
  the dtype of the observation space, the action as a row of one entry, the reward narrowed
  to float32. The stored flag is the environment's \<open>terminated\<close>, whatever \<open>truncated\<close> is. It returns the
  observation of \<^verbatim>\<open>env.reset\<close> when \<open>terminated\<close> or \<open>truncated\<close> holds and \<open>next_obs\<close> otherwise.
\<close>

theorem collect_one_step_stores_and_returns:
  assumes "buffer_inv b"
    and "epsilon_greedy_action_selection q_net obs exploration_rate env w = (Inr a, w1)"
    and "is_int64 a"
    and "env_step env w1 a = ((next_obs, reward, terminated, truncated), w2)"
  shows "collect_one_step env q_net b obs exploration_rate w =
           (Inr (if terminated \<or> truncated then fst (env_reset env w2) else next_obs),
            snd (store_transition b obs next_obs a reward terminated),
            (if terminated \<or> truncated then snd (env_reset env w2) else w2)) \<and>
         fst (store_transition b obs next_obs a reward terminated) = Inr () \<and>
         slot (snd (store_transition b obs next_obs a reward terminated)) (nat (current_idx b))
           = (to_dtype (observation_space b) obs, to_dtype (observation_space b) next_obs, [a],
              to_float32 reward, terminated)"
proof -
  have st: "store_transition b obs next_obs a reward terminated
              = (Inr (), stored b obs next_obs a reward terminated)"
    by (rule store_transition_ok [OF assms(1,3)])
  have lt: "nat (current_idx b) < nat (buffer_size b)"
    using assms(1) by (simp add: buffer_inv_def)
  have "slot (stored b obs next_obs a reward terminated) (nat (current_idx b))
          = (to_dtype (observation_space b) obs, to_dtype (observation_space b) next_obs, [a],
             to_float32 reward, terminated)"
    by (simp add: slot_stored [OF assms(1) lt] row_of_def action_dim_def)
  then show ?thesis
    using assms(2,4) st
    by (simp add: collect_one_step_def Let_def split: prod.splits)
qed

theorem collect_one_step_stores_and_returns_witness:
  "buffer_inv (fresh_buffer 4 nat_box (Discrete 2) :: nat ReplayBuffer) \<and>
   epsilon_greedy_action_selection (\<lambda>obs. [0, 2, 2]) 3 (1 / 10) toy_env 3 = (Inr 1, 3) \<and>
   is_int64 1 \<and>
   env_step toy_env 3 1 = ((4, fl64 (1 / 10), False, True), 4) \<and>
   fst (collect_one_step toy_env (\<lambda>obs. [0, 2, 2]) (fresh_buffer 4 nat_box (Discrete 2)) 3 (1 / 10) 3) = Inr 0 \<and>
   terminateds (fst (snd (collect_one_step toy_env (\<lambda>obs. [0, 2, 2])
       (fresh_buffer 4 nat_box (Discrete 2)) 3 (1 / 10) 3))) ! 0 = False \<and>
   slot (fst (snd (collect_one_step toy_env (\<lambda>obs. [0, 2, 2])
       (fresh_buffer 4 nat_box (Discrete 2)) 3 (1 / 10) 3))) 0
     = (3, 4, [1], Finite (13421773 / 2 ^ 27), False)"
proof -
  have h: "buffer_inv (fresh_buffer 4 nat_box (Discrete 2) :: nat ReplayBuffer)"
    "epsilon_greedy_action_selection (\<lambda>obs. [0, 2, 2]) 3 (1 / 10) toy_env 3 = (Inr 1, 3)"
    "is_int64 1"
    "env_step toy_env 3 1 = ((4, fl64 (1 / 10), False, True), 4)"
    by (simp_all add: fresh_buffer_inv epsilon_greedy_action_selection_def toy_env_def argmax_def
        is_int64_def)
  show ?thesis
    using h collect_one_step_stores_and_returns [OF h]
    by (simp add: fresh_buffer_def toy_env_def slot_def nat_box_def to_float32_tenth)
qed

section \<open>The exploration schedule in binary64\<close>

lemma floor_log2_bounds:
  assumes "0 < q"
  shows "2 powi (floor_log2 q) \<le> q" and "q < 2 powi (floor_log2 q + 1)"
proof -
  obtain a b where ab: "quotient_of q = (a, b)" by (cases "quotient_of q")
  then have b: "0 < b" and q: "q = of_int a / of_int b"
    by (simp_all add: quotient_of_denom_pos quotient_of_div)
  with assms have a: "0 < a" by (simp add: zero_less_divide_iff)
  define la lb where "la = bitlen a" and "lb = bitlen b"
  have la: "1 \<le> la" and lb: "1 \<le> lb"
    using a b bitlen_eq_zero_iff [of a] bitlen_eq_zero_iff [of b] bitlen_nonneg [of a] bitlen_nonneg [of b]
    by (simp_all add: la_def lb_def)
  from bitlen_bounds [OF a] have "(2::int) ^ nat (la - 1) \<le> a" "a < 2 ^ nat la"
    by (simp_all add: la_def)
  then have "(of_int ((2::int) ^ nat (la - 1)) :: rat) \<le> of_int a" "(of_int a :: rat) < of_int (2 ^ nat la)"
    by (simp_all only: of_int_le_iff of_int_less_iff)
  then have A: "(2::rat) powi (la - 1) \<le> of_int a" "(of_int a :: rat) < 2 powi la"
    using la by (simp_all add: power_int_def)
  from bitlen_bounds [OF b] have "(2::int) ^ nat (lb - 1) \<le> b" "b < 2 ^ nat lb"
    by (simp_all add: lb_def)
  then have "(of_int ((2::int) ^ nat (lb - 1)) :: rat) \<le> of_int b" "(of_int b :: rat) < of_int (2 ^ nat lb)"
    by (simp_all only: of_int_le_iff of_int_less_iff)
  then have B: "(2::rat) powi (lb - 1) \<le> of_int b" "(of_int b :: rat) < 2 powi lb"
    using lb by (simp_all add: power_int_def)
  have bpos: "(0::rat) < of_int b" using b by simp
  have lo: "(2::rat) powi (la - lb - 1) < q"
  proof -
    have "(2::rat) powi (la - lb - 1) * of_int b < 2 powi (la - lb - 1) * 2 powi lb"
      using B(2) by (simp add: mult_strict_left_mono)
    also have "\<dots> = 2 powi (la - 1)"
      by (simp add: power_int_add [symmetric])
    also have "\<dots> \<le> of_int a" by (rule A(1))
    finally show ?thesis using bpos by (simp add: q pos_less_divide_eq)
  qed
  have hi: "q < (2::rat) powi (la - lb + 1)"
  proof -
    have "of_int a < (2::rat) powi la" by (rule A(2))
    also have "\<dots> = 2 powi (la - lb + 1) * 2 powi (lb - 1)"
      by (simp add: power_int_add [symmetric])
    also have "\<dots> \<le> 2 powi (la - lb + 1) * of_int b"
      using B(1) by (simp add: mult_left_mono)
    finally show ?thesis using bpos by (simp add: q pos_divide_less_eq)
  qed
  have fl: "floor_log2 q = (if 2 powi (la - lb) \<le> q then la - lb else la - lb - 1)"
    by (simp add: floor_log2_def ab la_def lb_def Let_def)
  show "2 powi (floor_log2 q) \<le> q" using lo by (simp add: fl)
  show "q < 2 powi (floor_log2 q + 1)" using hi by (simp add: fl not_le)
qed

lemma floor_log2_nonneg:
  assumes "1 \<le> q"
  shows "0 \<le> floor_log2 q"
proof (rule ccontr)
  assume "\<not> 0 \<le> floor_log2 q"
  then have "floor_log2 q + 1 \<le> 0" by simp
  then have "(2::rat) powi (floor_log2 q + 1) \<le> 2 powi 0"
    by (intro power_int_increasing) simp_all
  with floor_log2_bounds(2) [of q] assms show False by simp
qed

lemma floor_log2_le:
  assumes "0 < q" and "q \<le> 2 powi k"
  shows "floor_log2 q \<le> k"
proof (rule ccontr)
  assume "\<not> floor_log2 q \<le> k"
  then have "k + 1 \<le> floor_log2 q" by simp
  then have "(2::rat) powi (k + 1) \<le> 2 powi (floor_log2 q)"
    by (intro power_int_increasing) simp_all
  also have "\<dots> \<le> q" by (rule floor_log2_bounds(1) [OF assms(1)])
  finally have "(2::rat) powi (k + 1) \<le> 2 powi k" using assms(2) by simp
  then show False by (simp add: power_int_add)
qed

lemma round_half_even_of_int [simp]: "round_half_even (of_int n) = n"
  by (simp add: round_half_even_def)

lemma round_half_even_ge_floor: "\<lfloor>x\<rfloor> \<le> round_half_even x"
  by (simp add: round_half_even_def Let_def)

lemma fl64_of_int:
  assumes "0 \<le> n" and "n \<le> 2 ^ 53"
  shows "fl64 (of_int n) = Finite (of_int n)"
proof (cases "n = 0")
  case True
  then show ?thesis by (simp add: fl64_def)
next
  case False
  define q :: rat where "q = of_int n"
  define e where "e = floor_log2 q"
  from False assms(1) have n1: "1 \<le> n" by simp
  then have q1: "1 \<le> q" and q0: "0 < q" "q \<noteq> 0" "\<bar>q\<bar> = q" by (simp_all add: q_def)
  have "q \<le> of_int (2 ^ 53)" unfolding q_def using assms(2) by (simp only: of_int_le_iff)
  then have q53: "q \<le> 2 powi 53" by simp
  have e0: "0 \<le> e" unfolding e_def by (rule floor_log2_nonneg [OF q1])
  have e53: "e \<le> 53" unfolding e_def by (rule floor_log2_le [OF q0(1) q53])
  define ulp :: rat where "ulp = 2 powi (e - 52)"
  have ulp0: "ulp \<noteq> 0" by (simp add: ulp_def)
  have "\<exists>k. q / ulp = of_int k"
  proof (cases "e = 53")
    case True
    with floor_log2_bounds(1) [OF q0(1)] have "2 powi 53 \<le> q" by (simp add: e_def)
    with q53 have "q = 2 powi 53" by simp
    with True have "q / ulp = of_int (2 ^ 52)" by (simp add: ulp_def)
    then show ?thesis by blast
  next
    case False
    with e53 have le: "0 \<le> 52 - e" by simp
    have "q / ulp = q * 2 powi (52 - e)"
      by (simp add: ulp_def power_int_diff field_simps)
    also have "\<dots> = of_int (n * 2 ^ nat (52 - e))"
      using le by (simp add: q_def power_int_def)
    finally show ?thesis by blast
  qed
  then obtain k where k: "q / ulp = of_int k" by blast
  then have "of_int (round_half_even (q / ulp)) * ulp = q / ulp * ulp" by simp
  also have "\<dots> = q" using ulp0 by simp
  finally have r: "of_int (round_half_even (q / ulp)) * ulp = q" .
  have "fl64 q = Finite q"
    using q0 e0 e53 r by (simp add: fl64_def Let_def e_def [symmetric] ulp_def [symmetric] max_def)
  then show ?thesis by (simp add: q_def)
qed

lemma fl64_ge_one:
  assumes "1 \<le> q" and "q \<le> 2 powi 53"
  shows "\<exists>r. fl64 q = Finite r \<and> 1 \<le> r"
proof -
  define e where "e = floor_log2 q"
  from assms(1) have q0: "0 < q" "q \<noteq> 0" "\<bar>q\<bar> = q" by simp_all
  have e0: "0 \<le> e" unfolding e_def by (rule floor_log2_nonneg [OF assms(1)])
  have e53: "e \<le> 53" unfolding e_def by (rule floor_log2_le [OF q0(1) assms(2)])
  define ulp :: rat where "ulp = 2 powi (e - 52)"
  have ulp0: "0 < ulp" by (simp add: ulp_def)
  have "2 powi e \<le> q" unfolding e_def by (rule floor_log2_bounds(1) [OF q0(1)])
  then have "2 powi e / ulp \<le> q / ulp" using ulp0 by (simp add: divide_right_mono)
  moreover have "2 powi e / ulp = (of_int (2 ^ 52) :: rat)"
    by (simp add: ulp_def power_int_diff)
  ultimately have "(of_int (2 ^ 52) :: rat) \<le> q / ulp" by simp
  then have "2 ^ 52 \<le> \<lfloor>q / ulp\<rfloor>" by (simp only: le_floor_iff)
  from this round_half_even_ge_floor [of "q / ulp"] have "2 ^ 52 \<le> round_half_even (q / ulp)"
    by (rule order_trans)
  then have "(of_int (2 ^ 52) :: rat) \<le> of_int (round_half_even (q / ulp))"
    by (simp only: of_int_le_iff)
  then have "of_int (2 ^ 52) * ulp \<le> of_int (round_half_even (q / ulp)) * ulp"
    using ulp0 by (simp only: mult_le_cancel_right) simp
  moreover have "of_int (2 ^ 52) * ulp = 2 powi e"
    by (simp add: ulp_def power_int_diff)
  moreover have "(1::rat) \<le> 2 powi e"
    using e0 by (simp add: power_int_def)
  ultimately have r1: "1 \<le> of_int (round_half_even (q / ulp)) * ulp" by simp
  have "fl64 q = Finite (of_int (round_half_even (q / ulp)) * ulp)"
    using q0 e0 e53 by (simp add: fl64_def Let_def e_def [symmetric] ulp_def [symmetric] max_def)
  with r1 show ?thesis by blast
qed

lemma py_float_exact:
  assumes "0 \<le> n" and "n \<le> 2 ^ 53"
  shows "py_float n = Inr (Finite (of_int n))"
  by (simp add: py_float_def fl64_of_int [OF assms])

lemma fl64_one: "fl64 1 = Finite 1"
  using fl64_of_int [of 1] by simp

lemma linear_schedule_formula:
  assumes "0 \<le> current_step" and "current_step \<le> 2 ^ 53"
    and "1 \<le> max_steps" and "max_steps \<le> 2 ^ 53"
  shows "linear_schedule initial_value final_value current_step max_steps =
           Inr (fadd initial_value
                  (fmul (np_minimum (fl64 (of_int current_step / of_int max_steps)) (Finite 1))
                        (fsub final_value initial_value)))"
proof -
  from assms(3) have "0 \<le> max_steps" "max_steps \<noteq> 0" by simp_all
  then show ?thesis
    using assms
    by (simp add: linear_schedule_def py_float_exact fl64_one)
qed

lemma linear_schedule_clamped:
  assumes "max_steps \<le> current_step" and "current_step \<le> 2 ^ 53" and "1 \<le> max_steps"
  shows "linear_schedule initial_value final_value current_step max_steps =
           Inr (fadd initial_value (fmul (Finite 1) (fsub final_value initial_value)))"
proof -
  define q :: rat where "q = of_int current_step / of_int max_steps"
  have m: "(1::rat) \<le> of_int max_steps" using assms(3) by simp
  have "(of_int max_steps :: rat) \<le> of_int current_step"
    using assms(1) by (simp only: of_int_le_iff)
  then have q1: "1 \<le> q" using m by (simp add: q_def pos_le_divide_eq)
  have "q \<le> of_int current_step"
  proof -
    have "of_int current_step / of_int max_steps \<le> (of_int current_step :: rat) / 1"
      using m assms(1,3) by (intro divide_left_mono) simp_all
    then show ?thesis by (simp add: q_def)
  qed
  also have "(of_int current_step :: rat) \<le> of_int (2 ^ 53)"
    using assms(2) by (simp only: of_int_le_iff)
  finally have "q \<le> 2 powi 53" by simp
  from fl64_ge_one [OF q1 this] obtain r where r: "fl64 q = Finite r" "1 \<le> r" by blast
  then have "np_minimum (fl64 q) (Finite 1) = Finite 1"
    by (simp add: np_minimum_def)
  moreover have "0 \<le> current_step" "max_steps \<le> 2 ^ 53" using assms by simp_all
  ultimately show ?thesis
    using linear_schedule_formula [of current_step max_steps initial_value final_value] assms
    by (simp add: q_def)
qed

text \<open>
  The claim's value at the last step: \<^verbatim>\<open>linear_schedule(1.0, 0.1, 100, 100)\<close> is not equal to
  \<^verbatim>\<open>0.1\<close>. It is \<open>1.0 + 1.0 * (0.1 - 1.0)\<close> in binary64, one of the numbers next to it.
\<close>

theorem linear_schedule_final_value_counterexample:
  "linear_schedule (fl64 1) (fl64 (1 / 10)) 100 100 = Inr (Finite (900719925474099 / 2 ^ 53)) \<and>
   fl64 (1 / 10) = Finite (3602879701896397 / 2 ^ 55) \<and>
   linear_schedule (fl64 1) (fl64 (1 / 10)) 100 100 \<noteq> Inr (fl64 (1 / 10))"
  by code_simp

text \<open>
  Claim C6, as the code has it. For step counts up to \<open>2\<^sup>5\<^sup>3\<close> (which convert to floats
  exactly), \<^verbatim>\<open>linear_schedule\<close> returns \<open>initial + min(current_step / max_steps, 1.0) * (final -
  initial)\<close> with every operation rounded to binary64, and the value does not depend on
  \<open>current_step\<close> once \<open>current_step \<ge> max_steps\<close>. From 1.0 to 0.1 over 100 steps it is exactly
  1.0 at step 0 and exactly 0.55 at step 50; at the steps 100 and 150 it is
  0.09999999999999998, which is within \<open>10\<^sup>-\<^sup>1\<^sup>6\<close> of 0.1.
\<close>

theorem linear_schedule_binary64:
  "(0 \<le> current_step \<and> current_step \<le> 2 ^ 53 \<and> 1 \<le> max_steps \<and> max_steps \<le> 2 ^ 53 \<longrightarrow>
      linear_schedule initial_value final_value current_step max_steps =
        Inr (fadd initial_value
               (fmul (np_minimum (fl64 (of_int current_step / of_int max_steps)) (Finite 1))
                     (fsub final_value initial_value)))) \<and>
   (1 \<le> max_steps \<and> max_steps \<le> current_step \<and> current_step \<le> 2 ^ 53 \<longrightarrow>
      linear_schedule initial_value final_value current_step max_steps =
        Inr (fadd initial_value (fmul (Finite 1) (fsub final_value initial_value)))) \<and>
   linear_schedule (fl64 1) (fl64 (1 / 10)) 0 100 = Inr (fl64 1) \<and>
   linear_schedule (fl64 1) (fl64 (1 / 10)) 50 100 = Inr (fl64 (55 / 100)) \<and>
   linear_schedule (fl64 1) (fl64 (1 / 10)) 100 100 = Inr (Finite (900719925474099 / 2 ^ 53)) \<and>
   linear_schedule (fl64 1) (fl64 (1 / 10)) 150 100 = Inr (Finite (900719925474099 / 2 ^ 53)) \<and>
   \<bar>900719925474099 / 2 ^ 53 - 1 / 10\<bar> < (1 / 10 ^ 16 :: rat)"
proof -
  have "linear_schedule (fl64 1) (fl64 (1 / 10)) 0 100 = Inr (fl64 1)"
    by code_simp
  moreover have "linear_schedule (fl64 1) (fl64 (1 / 10)) 50 100 = Inr (fl64 (55 / 100))"
    by code_simp
  moreover have "linear_schedule (fl64 1) (fl64 (1 / 10)) 100 100
      = Inr (Finite (900719925474099 / 2 ^ 53))"
    by code_simp
  moreover have "linear_schedule (fl64 1) (fl64 (1 / 10)) 150 100
      = Inr (Finite (900719925474099 / 2 ^ 53))"
    by code_simp
  moreover have "\<bar>900719925474099 / 2 ^ 53 - 1 / 10\<bar> < (1 / 10 ^ 16 :: rat)"
    by simp
  ultimately show ?thesis
    using linear_schedule_formula [of current_step max_steps initial_value final_value]
      linear_schedule_clamped [of max_steps current_step initial_value final_value]
    by blast
qed

theorem linear_schedule_binary64_witness:
  "(0::int) \<le> 25 \<and> (25::int) \<le> 2 ^ 53 \<and> (1::int) \<le> 100 \<and> (100::int) \<le> 2 ^ 53 \<and>
   linear_schedule (fl64 1) (fl64 (1 / 10)) 25 100 = Inr (Finite (6980579422424269 / 2 ^ 53)) \<and>
   (100::int) \<le> 120 \<and> (120::int) \<le> 2 ^ 53 \<and>
   linear_schedule (fl64 1) (fl64 (1 / 10)) 120 100 = Inr (Finite (900719925474099 / 2 ^ 53))"
proof -
  have "fadd (fl64 1) (fmul (np_minimum (fl64 (of_int 25 / of_int 100)) (Finite 1))
          (fsub (fl64 (1 / 10)) (fl64 1))) = Finite (6980579422424269 / 2 ^ 53)"
    by code_simp
  moreover have "fadd (fl64 1) (fmul (np_minimum (fl64 (of_int 120 / of_int 100)) (Finite 1))
          (fsub (fl64 (1 / 10)) (fl64 1))) = Finite (900719925474099 / 2 ^ 53)"
    by code_simp
  ultimately show ?thesis
    using linear_schedule_binary64 [of 25 100 "fl64 1" "fl64 (1 / 10)"]
      linear_schedule_binary64 [of 120 100 "fl64 1" "fl64 (1 / 10)"]
    by simp
qed

end
